theory Spec2Isabelle
  imports
    Main
    "HOL-Library.Word"
    "HOL-Library.Product_Lexorder"
    "HOL-Library.List_Lexorder"
    "HOL-Library.Char_ord"
begin

section \<open>Data model of \<open>fin_report_app.py\<close>\<close>

text \<open>
  The aggregator \<open>process_data\<close> reads four pandas DataFrames. A frame is modelled by the
  list of its column names and the list of its rows. The numeric columns are modelled at
  dtype \<open>int64\<close> (what \<open>np.random.randint\<close> and an all-integer CSV column give): sums
  and products wrap modulo \<open>2 ^ 64\<close>, as numpy's do. A \<open>float64\<close> column is outside
  this model. A \<open>datetime64\<close> cell may be \<open>NaT\<close> and an \<open>object\<close> cell may be
  \<open>NaN\<close>: both are \<open>None\<close> here; an \<open>int64\<close> cell is never missing.
\<close>

type_synonym int64 = "64 word"

record date =
  year :: int
  month :: nat
  day :: nat

text \<open>The label of a \<open>pd.Grouper(key='date', freq='M')\<close> bin: the calendar month.\<close>

type_synonym month_end = "int \<times> nat"

definition month_of :: "date \<Rightarrow> month_end" where
  "month_of d = (year d, month d)"

text \<open>
  Rows of the income and of the expense frame (columns \<open>date, category, amount\<close>), of the
  inventory frame and of the cash-flow frame. The type of the date cell is a parameter:
  an uploaded file holds text there, \<open>process_data\<close> reads \<open>datetime64\<close>.
\<close>

record 'd txn_row =
  date :: 'd
  category :: "string option"
  amount :: int64

record 'd inventory_row =
  inv_date :: 'd
  product :: "string option"
  quantity :: int64
  cost_price :: int64
  selling_price :: int64

record 'd cash_flow_row =
  cf_date :: 'd
  cf_type :: "string option"
  cf_category :: "string option"
  cf_amount :: int64

text \<open>
  \<open>columns\<close> lists the columns the frame has. The field of a row that belongs to a column
  the frame does not have is never read: every access below checks \<open>columns\<close> first and
  raises \<open>KeyError\<close>, as pandas does.
\<close>

record 'r frame =
  columns :: "string list"
  rows :: "'r list"

datatype error = KeyError string

subsection \<open>Grouping\<close>

text \<open>
  \<open>df.groupby([pd.Grouper(key='date', freq='M'), k])\<close>: the groups are the observed pairs
  (month, key), sorted; a row whose date is \<open>NaT\<close> or whose key is \<open>NaN\<close> belongs to no
  group (\<open>dropna=True\<close> is the default).
\<close>

fun key_of :: "date option \<Rightarrow> string option \<Rightarrow> (month_end \<times> string) option" where
  "key_of (Some d) (Some k) = Some (month_of d, k)"
| "key_of _ _ = None"

definition groupby ::
  "('r \<Rightarrow> date option) \<Rightarrow> ('r \<Rightarrow> string option) \<Rightarrow> 'r list
    \<Rightarrow> ((month_end \<times> string) \<times> 'r list) list" where
  "groupby dt ky rs =
     map (\<lambda>k. (k, filter (\<lambda>r. key_of (dt r) (ky r) = Some k) rs))
       (sort (remdups (List.map_filter (\<lambda>r. key_of (dt r) (ky r)) rs)))"

text \<open>\<open>[col].sum()\<close> and \<open>.apply(f)\<close> give one value per group: a Series on the group keys.\<close>

definition apply_groups ::
  "('r list \<Rightarrow> int64) \<Rightarrow> ((month_end \<times> string) \<times> 'r list) list
    \<Rightarrow> ((month_end \<times> string) \<times> int64) list" where
  "apply_groups f gs = map (\<lambda>(k, g). (k, f g)) gs"

subsection \<open>Pivoted tables\<close>

text \<open>
  A pivoted DataFrame: the row labels, the column labels and the two-dimensional array of
  cells, one list per row.
\<close>

record pivot =
  p_index :: "month_end list"
  p_columns :: "string list"
  p_values :: "int64 list list"

text \<open>\<open>Series.unstack(fill_value=v)\<close> on a Series indexed by (month, key).\<close>

definition unstack :: "int64 \<Rightarrow> ((month_end \<times> string) \<times> int64) list \<Rightarrow> pivot" where
  "unstack fill_value s =
     (let idx = sort (remdups (map (fst \<circ> fst) s));
          cols = sort (remdups (map (snd \<circ> fst) s))
      in \<lparr>p_index = idx, p_columns = cols,
          p_values = map (\<lambda>m. map (\<lambda>c. case map_of s (m, c) of
                                           Some v \<Rightarrow> v | None \<Rightarrow> fill_value) cols) idx\<rparr>)"

fun index_of :: "'a \<Rightarrow> 'a list \<Rightarrow> nat option" where
  "index_of x [] = None"
| "index_of x (y # ys) =
     (if x = y then Some 0 else map_option Suc (index_of x ys))"

text \<open>\<open>df.loc[m, c]\<close>, \<open>None\<close> where the frame has no such cell.\<close>

definition loc :: "pivot \<Rightarrow> month_end \<Rightarrow> string \<Rightarrow> int64 option" where
  "loc p m c =
     (case index_of m (p_index p) of
        None \<Rightarrow> None
      | Some i \<Rightarrow>
          (case index_of c (p_columns p) of
             None \<Rightarrow> None
           | Some j \<Rightarrow>
               if i < length (p_values p) \<and> j < length (p_values p ! i)
               then Some (p_values p ! i ! j) else None))"

text \<open>\<open>df[c]\<close>: the column's values along the index, \<open>KeyError\<close> without such a column.\<close>

definition getitem :: "pivot \<Rightarrow> string \<Rightarrow> error + int64 list" where
  "getitem p c =
     (case index_of c (p_columns p) of
        None \<Rightarrow> Inl (KeyError c)
      | Some j \<Rightarrow> Inr (map (\<lambda>row. row ! j) (p_values p)))"

text \<open>
  \<open>df[c] = vs\<close>: an existing column is overwritten in place, a new one is appended as the
  last column.
\<close>

definition setitem :: "pivot \<Rightarrow> string \<Rightarrow> int64 list \<Rightarrow> pivot" where
  "setitem p c vs =
     (case index_of c (p_columns p) of
        Some j \<Rightarrow> p\<lparr>p_values := map2 (\<lambda>row v. row[j := v]) (p_values p) vs\<rparr>
      | None \<Rightarrow> p\<lparr>p_columns := p_columns p @ [c],
                   p_values := map2 (\<lambda>row v. row @ [v]) (p_values p) vs\<rparr>)"

text \<open>\<open>df.sum(axis=1)\<close>: a Series on the row labels.\<close>

definition sum_axis1 :: "pivot \<Rightarrow> (month_end \<times> int64) list" where
  "sum_axis1 p = zip (p_index p) (map sum_list (p_values p))"

text \<open>
  \<open>a - b\<close> on two Series: the labels are aligned on the sorted union of both indexes, and a
  label that one side lacks gives \<open>NaN\<close> (\<open>None\<close>). pandas computes in \<open>float64\<close> once
  a \<open>NaN\<close> appears; the values are kept as 64-bit integers here.
\<close>

definition series_sub ::
  "(month_end \<times> int64) list \<Rightarrow> (month_end \<times> int64) list \<Rightarrow> (month_end \<times> int64 option) list"
  where
  "series_sub a b =
     map (\<lambda>m. (m, case (map_of a m, map_of b m) of
                     (Some x, Some y) \<Rightarrow> Some (x - y)
                   | _ \<Rightarrow> None))
       (sort (remdups (map fst a @ map fst b)))"

section \<open>The aggregator\<close>

record aggregate =
  monthly_income :: pivot
  total_income :: int64
  monthly_expenses :: pivot
  total_expenses :: int64
  monthly_pnl :: "(month_end \<times> int64 option) list"
  monthly_inventory_value :: pivot
  total_inventory_value :: int64
  monthly_cash_flow :: pivot

text \<open>The first of the columns \<open>cs\<close> that the frame lacks raises \<open>KeyError\<close>.\<close>

fun require :: "string list \<Rightarrow> 'r frame \<Rightarrow> error option" where
  "require [] df = None"
| "require (c # cs) df = (if c \<in> set (columns df) then require cs df else Some (KeyError c))"

text \<open>
  \<open>df.groupby([pd.Grouper(key='date', freq='M'), 'category'])['amount'].sum()
  .unstack(fill_value=0)\<close>, lines 107 and 111.
\<close>

definition monthly_by_category :: "date option txn_row frame \<Rightarrow> error + pivot" where
  "monthly_by_category df =
     (case require [''date'', ''category'', ''amount''] df of
        Some e \<Rightarrow> Inl e
      | None \<Rightarrow>
          Inr (unstack 0 (apply_groups (\<lambda>g. sum_list (map amount g))
                 (groupby date category (rows df)))))"

text \<open>Lines 118 to 120: the monthly inventory value and the scalar over the raw table.\<close>

definition monthly_by_product :: "date option inventory_row frame \<Rightarrow> error + pivot" where
  "monthly_by_product df =
     (case require [''date'', ''product'', ''quantity'', ''cost_price''] df of
        Some e \<Rightarrow> Inl e
      | None \<Rightarrow>
          Inr (unstack 0 (apply_groups (\<lambda>x. sum_list (map (\<lambda>r. quantity r * cost_price r) x))
                 (groupby inv_date product (rows df)))))"

text \<open>Line 123.\<close>

definition monthly_by_type :: "date option cash_flow_row frame \<Rightarrow> error + pivot" where
  "monthly_by_type df =
     (case require [''date'', ''type'', ''amount''] df of
        Some e \<Rightarrow> Inl e
      | None \<Rightarrow>
          Inr (unstack 0 (apply_groups (\<lambda>g. sum_list (map cf_amount g))
                 (groupby cf_date cf_type (rows df)))))"

definition process_data ::
  "date option txn_row frame \<Rightarrow> date option txn_row frame
    \<Rightarrow> date option inventory_row frame \<Rightarrow> date option cash_flow_row frame
    \<Rightarrow> error + aggregate" where
  "process_data income_df expense_df inventory_df cash_flow_df =
     (case monthly_by_category income_df of
        Inl e \<Rightarrow> Inl e
      | Inr m_income \<Rightarrow>
     (case monthly_by_category expense_df of
        Inl e \<Rightarrow> Inl e
      | Inr m_expenses \<Rightarrow>
     (case monthly_by_product inventory_df of
        Inl e \<Rightarrow> Inl e
      | Inr m_inventory \<Rightarrow>
     (case monthly_by_type cash_flow_df of
        Inl e \<Rightarrow> Inl e
      | Inr m_cash_flow \<Rightarrow>
     (case getitem m_cash_flow ''Inflow'' of
        Inl e \<Rightarrow> Inl e
      | Inr inflow \<Rightarrow>
     (case getitem m_cash_flow ''Outflow'' of
        Inl e \<Rightarrow> Inl e
      | Inr outflow \<Rightarrow>
          Inr \<lparr>monthly_income = m_income,
               total_income = sum_list (map amount (rows income_df)),
               monthly_expenses = m_expenses,
               total_expenses = sum_list (map amount (rows expense_df)),
               monthly_pnl = series_sub (sum_axis1 m_income) (sum_axis1 m_expenses),
               monthly_inventory_value = m_inventory,
               total_inventory_value =
                 sum_list (map (\<lambda>r. quantity r * cost_price r) (rows inventory_df)),
               monthly_cash_flow =
                 setitem m_cash_flow ''Net'' (map2 (-) inflow outflow)\<rparr>))))))"

text \<open>
  The shape every frame built by \<open>unstack\<close> has: one list of cells per row label, one
  cell per column label, and no label twice.
\<close>

definition wf_pivot :: "pivot \<Rightarrow> bool" where
  "wf_pivot p \<longleftrightarrow>
     length (p_values p) = length (p_index p) \<and>
     (\<forall>row \<in> set (p_values p). length row = length (p_columns p)) \<and>
     distinct (p_index p) \<and> distinct (p_columns p)"

section \<open>Example tables\<close>

definition jan15 :: date where "jan15 = \<lparr>year = 2023, month = 1, day = 15\<rparr>"
definition feb03 :: date where "feb03 = \<lparr>year = 2023, month = 2, day = 3\<rparr>"

definition ex_income :: "date option txn_row frame" where
  "ex_income = \<lparr>columns = [''date'', ''category'', ''amount''],
     rows = [\<lparr>date = Some jan15, category = Some ''Product Sales'', amount = 1000\<rparr>,
             \<lparr>date = Some feb03, category = Some ''Service Fees'', amount = 250\<rparr>]\<rparr>"

definition ex_cash :: "date option cash_flow_row frame" where
  "ex_cash = \<lparr>columns = [''date'', ''type'', ''category'', ''amount''],
     rows = [\<lparr>cf_date = Some jan15, cf_type = Some ''Inflow'', cf_category = Some ''Rent'', cf_amount = 700\<rparr>,
             \<lparr>cf_date = Some feb03, cf_type = Some ''Outflow'', cf_category = Some ''Rent'', cf_amount = 300\<rparr>]\<rparr>"

definition ex_expense :: "date option txn_row frame" where
  "ex_expense = \<lparr>columns = [''date'', ''category'', ''amount''],
     rows = [\<lparr>date = Some jan15, category = Some ''Rent'', amount = 400\<rparr>]\<rparr>"

definition ex_inventory :: "date option inventory_row frame" where
  "ex_inventory = \<lparr>columns = [''date'', ''product'', ''quantity'', ''cost_price'', ''selling_price''],
     rows = [\<lparr>inv_date = Some jan15, product = Some ''Product A'', quantity = 3,
              cost_price = 20, selling_price = 50\<rparr>]\<rparr>"

definition ex_aggregate :: aggregate where
  "ex_aggregate =
     \<lparr>monthly_income = \<lparr>p_index = [(2023, 1), (2023, 2)],
        p_columns = [''Product Sales'', ''Service Fees''], p_values = [[1000, 0], [0, 250]]\<rparr>,
      total_income = 1250,
      monthly_expenses = \<lparr>p_index = [(2023, 1)], p_columns = [''Rent''], p_values = [[400]]\<rparr>,
      total_expenses = 400,
      monthly_pnl = [((2023, 1), Some 600), ((2023, 2), None)],
      monthly_inventory_value =
        \<lparr>p_index = [(2023, 1)], p_columns = [''Product A''], p_values = [[60]]\<rparr>,
      total_inventory_value = 60,
      monthly_cash_flow = \<lparr>p_index = [(2023, 1), (2023, 2)],
        p_columns = [''Inflow'', ''Outflow'', ''Net''],
        p_values = [[700, 0, 700], [0, 300, - 300]]\<rparr>\<rparr>"

text \<open>The (month, key) pairs that occur in the rows: the groups of \<open>groupby\<close>.\<close>

definition observed :: "('r \<Rightarrow> date option) \<Rightarrow> ('r \<Rightarrow> string option) \<Rightarrow> 'r list \<Rightarrow> (month_end \<times> string) set" where
  "observed dt ky rs = {k. \<exists>r \<in> set rs. key_of (dt r) (ky r) = Some k}"

definition ex_cash_inflow_only :: "date option cash_flow_row frame" where
  "ex_cash_inflow_only = \<lparr>columns = [''date'', ''type'', ''category'', ''amount''],
     rows = [\<lparr>cf_date = Some jan15, cf_type = Some ''Inflow'', cf_category = Some ''Rent'', cf_amount = 700\<rparr>]\<rparr>"

definition ex_empty_inventory :: "date option inventory_row frame" where
  "ex_empty_inventory =
     \<lparr>columns = [''date'', ''product'', ''quantity'', ''cost_price'', ''selling_price''],
      rows = []\<rparr>"



definition ex_expense2 :: "date option txn_row frame" where
  "ex_expense2 = \<lparr>columns = [''date'', ''category'', ''amount''],
     rows = [\<lparr>date = Some jan15, category = Some ''Rent'', amount = 400\<rparr>,
             \<lparr>date = Some feb03, category = Some ''Utilities'', amount = 90\<rparr>]\<rparr>"

definition ex_inventory2 :: "date option inventory_row frame" where
  "ex_inventory2 =
     \<lparr>columns = [''date'', ''product'', ''quantity'', ''cost_price'', ''selling_price''],
      rows = [\<lparr>inv_date = Some jan15, product = Some ''Product A'', quantity = 3,
               cost_price = 20, selling_price = 50\<rparr>,
              \<lparr>inv_date = Some feb03, product = Some ''Product B'', quantity = 2,
               cost_price = 7, selling_price = 9\<rparr>]\<rparr>"

definition ex_aggregate2 :: aggregate where
  "ex_aggregate2 =
     ex_aggregate\<lparr>
       monthly_expenses := \<lparr>p_index = [(2023, 1), (2023, 2)],
         p_columns = [''Rent'', ''Utilities''], p_values = [[400, 0], [0, 90]]\<rparr>,
       total_expenses := 490,
       monthly_pnl := [((2023, 1), Some 600), ((2023, 2), Some 160)],
       monthly_inventory_value := \<lparr>p_index = [(2023, 1), (2023, 2)],
         p_columns = [''Product A'', ''Product B''], p_values = [[60, 0], [0, 14]]\<rparr>,
       total_inventory_value := 74\<rparr>"

section \<open>The call on a store of objects\<close>

text \<open>
  Python passes the four DataFrames by reference. To say what a call does to them, the
  objects live in a store, a list indexed by address. Every expression of
  \<open>process_data\<close> that builds a table allocates a new object; the only statement that
  writes into an existing object is line 124, \<open>monthly_cash_flow['Net'] = ...\<close>. The
  returned dict holds the scalars and the addresses of the tables.
\<close>

datatype object =
    TxnFrame "date option txn_row frame"
  | InvFrame "date option inventory_row frame"
  | CashFrame "date option cash_flow_row frame"
  | PivotFrame pivot
  | SeriesObj "(month_end \<times> int64 option) list"

type_synonym addr = nat
type_synonym heap = "object list"

definition lookup :: "heap \<Rightarrow> addr \<Rightarrow> object option" where
  "lookup h a = (if a < length h then Some (h ! a) else None)"

definition alloc :: "object \<Rightarrow> heap \<Rightarrow> addr \<times> heap" where
  "alloc v h = (length h, h @ [v])"

record aggregate_refs =
  ref_monthly_income :: addr
  val_total_income :: int64
  ref_monthly_expenses :: addr
  val_total_expenses :: int64
  ref_monthly_pnl :: addr
  ref_monthly_inventory_value :: addr
  val_total_inventory_value :: int64
  ref_monthly_cash_flow :: addr

text \<open>The body of \<open>process_data\<close>, statement by statement, on the store.\<close>

definition process_data_on ::
  "date option txn_row frame \<Rightarrow> date option txn_row frame
    \<Rightarrow> date option inventory_row frame \<Rightarrow> date option cash_flow_row frame
    \<Rightarrow> heap \<Rightarrow> (error + aggregate_refs) \<times> heap" where
  "process_data_on income_df expense_df inventory_df cash_flow_df h =
     (case monthly_by_category income_df of
        Inl e \<Rightarrow> (Inl e, h)
      | Inr m_income \<Rightarrow>
     (case alloc (PivotFrame m_income) h of (a_income, h1) \<Rightarrow>
     (case monthly_by_category expense_df of
        Inl e \<Rightarrow> (Inl e, h1)
      | Inr m_expenses \<Rightarrow>
     (case alloc (PivotFrame m_expenses) h1 of (a_expenses, h2) \<Rightarrow>
     (case alloc (SeriesObj (series_sub (sum_axis1 m_income) (sum_axis1 m_expenses))) h2 of
        (a_pnl, h3) \<Rightarrow>
     (case monthly_by_product inventory_df of
        Inl e \<Rightarrow> (Inl e, h3)
      | Inr m_inventory \<Rightarrow>
     (case alloc (PivotFrame m_inventory) h3 of (a_inventory, h4) \<Rightarrow>
     (case monthly_by_type cash_flow_df of
        Inl e \<Rightarrow> (Inl e, h4)
      | Inr m_cash_flow \<Rightarrow>
     (case alloc (PivotFrame m_cash_flow) h4 of (a_cash_flow, h5) \<Rightarrow>
     (case getitem m_cash_flow ''Inflow'' of
        Inl e \<Rightarrow> (Inl e, h5)
      | Inr inflow \<Rightarrow>
     (case getitem m_cash_flow ''Outflow'' of
        Inl e \<Rightarrow> (Inl e, h5)
      | Inr outflow \<Rightarrow>
          (Inr \<lparr>ref_monthly_income = a_income,
                val_total_income = sum_list (map amount (rows income_df)),
                ref_monthly_expenses = a_expenses,
                val_total_expenses = sum_list (map amount (rows expense_df)),
                ref_monthly_pnl = a_pnl,
                ref_monthly_inventory_value = a_inventory,
                val_total_inventory_value =
                  sum_list (map (\<lambda>r. quantity r * cost_price r) (rows inventory_df)),
                ref_monthly_cash_flow = a_cash_flow\<rparr>,
           h5[a_cash_flow :=
                PivotFrame (setitem m_cash_flow ''Net'' (map2 (-) inflow outflow))]))))))))))))"

text \<open>
  The call with four addresses. \<open>None\<close>: an address that does not hold a frame of the
  kind the parameter stands for; such a call is outside this model.
\<close>

definition process_data_heap ::
  "addr \<Rightarrow> addr \<Rightarrow> addr \<Rightarrow> addr \<Rightarrow> heap \<Rightarrow> ((error + aggregate_refs) \<times> heap) option" where
  "process_data_heap income_df expense_df inventory_df cash_flow_df h =
     (case lookup h income_df of
        Some (TxnFrame i) \<Rightarrow>
          (case lookup h expense_df of
             Some (TxnFrame e) \<Rightarrow>
               (case lookup h inventory_df of
                  Some (InvFrame v) \<Rightarrow>
                    (case lookup h cash_flow_df of
                       Some (CashFrame c) \<Rightarrow> Some (process_data_on i e v c h)
                     | _ \<Rightarrow> None)
                | _ \<Rightarrow> None)
           | _ \<Rightarrow> None)
      | _ \<Rightarrow> None)"

text \<open>The tables a returned dict refers to, read from the store.\<close>

definition deref :: "heap \<Rightarrow> aggregate_refs \<Rightarrow> aggregate option" where
  "deref h r =
     (case lookup h (ref_monthly_income r) of
        Some (PivotFrame mi) \<Rightarrow>
          (case lookup h (ref_monthly_expenses r) of
             Some (PivotFrame me) \<Rightarrow>
               (case lookup h (ref_monthly_pnl r) of
                  Some (SeriesObj pnl) \<Rightarrow>
                    (case lookup h (ref_monthly_inventory_value r) of
                       Some (PivotFrame mv) \<Rightarrow>
                         (case lookup h (ref_monthly_cash_flow r) of
                            Some (PivotFrame mc) \<Rightarrow>
                              Some \<lparr>monthly_income = mi,
                                    total_income = val_total_income r,
                                    monthly_expenses = me,
                                    total_expenses = val_total_expenses r,
                                    monthly_pnl = pnl,
                                    monthly_inventory_value = mv,
                                    total_inventory_value = val_total_inventory_value r,
                                    monthly_cash_flow = mc\<rparr>
                          | _ \<Rightarrow> None)
                     | _ \<Rightarrow> None)
                | _ \<Rightarrow> None)
           | _ \<Rightarrow> None)
      | _ \<Rightarrow> None)"

text \<open>What a call gives its caller: the error, or the tables and scalars of the dict.\<close>

definition outcome :: "(error + aggregate_refs) \<times> heap \<Rightarrow> error + aggregate option" where
  "outcome x = (case x of (Inl e, h) \<Rightarrow> Inl e | (Inr r, h) \<Rightarrow> Inr (deref h r))"

definition ex_heap :: heap where
  "ex_heap = [TxnFrame ex_income, TxnFrame ex_expense, InvFrame ex_inventory, CashFrame ex_cash,
              TxnFrame ex_income, TxnFrame ex_expense, InvFrame ex_inventory, CashFrame ex_cash]"

section \<open>The upload branch of \<open>main\<close>\<close>

text \<open>
  Lines 359 to 386. Each of the four uploads is absent, or a file that \<open>pd.read_csv\<close> /
  \<open>pd.read_excel\<close> cannot read, or a frame. A cell of a date column, as read, is text
  that \<open>pd.to_datetime\<close> parses, or blank (it becomes \<open>NaT\<close>), or text that makes
  \<open>pd.to_datetime\<close> raise. What the user then gets is the warning of line 376, the
  message of line 373, or the call of \<open>process_data\<close> on the four frames (the button of
  line 383 taken as pressed), whose exceptions nothing catches.
\<close>

datatype date_cell = DateText date | Blank | BadText

datatype 'a upload = NotUploaded | Unreadable | Parsed 'a

datatype shown = UploadWarning | ErrorReadingFiles | Processed "error + aggregate"

fun to_datetime :: "date_cell \<Rightarrow> date option option" where
  "to_datetime (DateText d) = Some (Some d)"
| "to_datetime Blank = Some None"
| "to_datetime BadText = None"

text \<open>
  Line 367 to 369, \<open>if 'date' in df.columns: df['date'] = pd.to_datetime(df['date'])\<close>,
  for each kind of frame; \<open>None\<close> when \<open>pd.to_datetime\<close> raises. A frame without a date
  column is passed on as it is (its rows' date field is never read).
\<close>

definition txn_dates :: "date_cell txn_row frame \<Rightarrow> date option txn_row frame option" where
  "txn_dates df =
     (if ''date'' \<in> set (columns df)
      then map_option (\<lambda>rs. \<lparr>columns = columns df, rows = rs\<rparr>)
             (those (map (\<lambda>r. map_option
                (\<lambda>d. \<lparr>date = d, category = category r, amount = amount r\<rparr>)
                (to_datetime (date r))) (rows df)))
      else Some \<lparr>columns = columns df,
                 rows = map (\<lambda>r. \<lparr>date = None, category = category r, amount = amount r\<rparr>)
                          (rows df)\<rparr>)"

definition inventory_dates ::
  "date_cell inventory_row frame \<Rightarrow> date option inventory_row frame option" where
  "inventory_dates df =
     (if ''date'' \<in> set (columns df)
      then map_option (\<lambda>rs. \<lparr>columns = columns df, rows = rs\<rparr>)
             (those (map (\<lambda>r. map_option
                (\<lambda>d. \<lparr>inv_date = d, product = product r, quantity = quantity r,
                      cost_price = cost_price r, selling_price = selling_price r\<rparr>)
                (to_datetime (inv_date r))) (rows df)))
      else Some \<lparr>columns = columns df,
                 rows = map (\<lambda>r. \<lparr>inv_date = None, product = product r, quantity = quantity r,
                                  cost_price = cost_price r, selling_price = selling_price r\<rparr>)
                          (rows df)\<rparr>)"

definition cash_flow_dates ::
  "date_cell cash_flow_row frame \<Rightarrow> date option cash_flow_row frame option" where
  "cash_flow_dates df =
     (if ''date'' \<in> set (columns df)
      then map_option (\<lambda>rs. \<lparr>columns = columns df, rows = rs\<rparr>)
             (those (map (\<lambda>r. map_option
                (\<lambda>d. \<lparr>cf_date = d, cf_type = cf_type r, cf_category = cf_category r,
                      cf_amount = cf_amount r\<rparr>)
                (to_datetime (cf_date r))) (rows df)))
      else Some \<lparr>columns = columns df,
                 rows = map (\<lambda>r. \<lparr>cf_date = None, cf_type = cf_type r,
                                  cf_category = cf_category r, cf_amount = cf_amount r\<rparr>)
                          (rows df)\<rparr>)"

definition main_upload ::
  "date_cell txn_row frame upload \<Rightarrow> date_cell txn_row frame upload
    \<Rightarrow> date_cell inventory_row frame upload \<Rightarrow> date_cell cash_flow_row frame upload
    \<Rightarrow> shown" where
  "main_upload income_file expense_file inventory_file cash_flow_file =
     (if income_file = NotUploaded \<or> expense_file = NotUploaded
         \<or> inventory_file = NotUploaded \<or> cash_flow_file = NotUploaded
      then UploadWarning
      else
        (case (income_file, expense_file, inventory_file, cash_flow_file) of
           (Parsed i, Parsed e, Parsed v, Parsed c) \<Rightarrow>
             (case (txn_dates i, txn_dates e, inventory_dates v, cash_flow_dates c) of
                (Some income_df, Some expense_df, Some inventory_df, Some cash_flow_df) \<Rightarrow>
                  Processed (process_data income_df expense_df inventory_df cash_flow_df)
              | _ \<Rightarrow> ErrorReadingFiles)
         | _ \<Rightarrow> ErrorReadingFiles))"

text \<open>A date column with a cell that \<open>pd.to_datetime\<close> cannot parse.\<close>

definition unparseable :: "string list \<Rightarrow> date_cell list \<Rightarrow> bool" where
  "unparseable cols cells \<longleftrightarrow> ''date'' \<in> set cols \<and> BadText \<in> set cells"

definition up_income :: "date_cell txn_row frame" where
  "up_income = \<lparr>columns = [''date'', ''category'', ''amount''],
     rows = [\<lparr>date = DateText jan15, category = Some ''Product Sales'', amount = 1000\<rparr>,
             \<lparr>date = DateText feb03, category = Some ''Service Fees'', amount = 250\<rparr>]\<rparr>"

definition up_income_no_amount :: "date_cell txn_row frame" where
  "up_income_no_amount = up_income\<lparr>columns := [''date'', ''category'']\<rparr>"

definition up_income_bad_date :: "date_cell txn_row frame" where
  "up_income_bad_date = \<lparr>columns = [''date'', ''category'', ''amount''],
     rows = [\<lparr>date = BadText, category = Some ''Product Sales'', amount = 1000\<rparr>]\<rparr>"

definition up_expense :: "date_cell txn_row frame" where
  "up_expense = \<lparr>columns = [''date'', ''category'', ''amount''],
     rows = [\<lparr>date = DateText jan15, category = Some ''Rent'', amount = 400\<rparr>]\<rparr>"

definition up_inventory_empty :: "date_cell inventory_row frame" where
  "up_inventory_empty =
     \<lparr>columns = [''date'', ''product'', ''quantity'', ''cost_price'', ''selling_price''],
      rows = []\<rparr>"

definition up_cash :: "date_cell cash_flow_row frame" where
  "up_cash = \<lparr>columns = [''date'', ''type'', ''category'', ''amount''],
     rows = [\<lparr>cf_date = DateText jan15, cf_type = Some ''Inflow'', cf_category = Some ''Rent'',
              cf_amount = 700\<rparr>,
             \<lparr>cf_date = DateText feb03, cf_type = Some ''Outflow'', cf_category = Some ''Rent'',
              cf_amount = 300\<rparr>]\<rparr>"

definition ex_aggregate_no_stock :: aggregate where
  "ex_aggregate_no_stock =
     ex_aggregate\<lparr>monthly_inventory_value := \<lparr>p_index = [], p_columns = [], p_values = []\<rparr>,
                  total_inventory_value := 0\<rparr>"

section \<open>Positions and cells\<close>

lemma index_of_None: "index_of x xs = None \<longleftrightarrow> x \<notin> set xs"
  by (induction xs) auto

lemma index_of_Some: "index_of x xs = Some i \<Longrightarrow> i < length xs \<and> xs ! i = x"
  by (induction xs arbitrary: i) (auto split: if_splits)

lemma index_of_mem: "x \<in> set xs \<Longrightarrow> \<exists>i. index_of x xs = Some i"
  by (induction xs) auto

lemma index_of_nth: "distinct xs \<Longrightarrow> i < length xs \<Longrightarrow> index_of (xs ! i) xs = Some i"
proof (induction xs arbitrary: i)
  case Nil then show ?case by simp
next
  case (Cons y ys)
  then show ?case by (cases i) auto
qed

lemma index_of_append_in: "index_of x xs = Some i \<Longrightarrow> index_of x (xs @ ys) = Some i"
  by (induction xs arbitrary: i) (auto split: if_splits)

lemma index_of_append_new: "x \<notin> set xs \<Longrightarrow> index_of x (xs @ [x]) = Some (length xs)"
  by (induction xs) auto

lemma wf_unstack: "wf_pivot (unstack f s)"
  by (simp add: wf_pivot_def unstack_def Let_def)

lemma loc_unstack:
  "loc (unstack f s) m c =
     (if m \<in> fst ` fst ` set s \<and> c \<in> snd ` fst ` set s
      then Some (case map_of s (m, c) of Some v \<Rightarrow> v | None \<Rightarrow> f) else None)"
proof -
  define idx where "idx = sort (remdups (map (fst \<circ> fst) s))"
  define cols where "cols = sort (remdups (map (snd \<circ> fst) s))"
  have sidx: "set idx = fst ` fst ` set s" by (simp add: idx_def image_image)
  have scols: "set cols = snd ` fst ` set s" by (simp add: cols_def image_image)
  have u: "unstack f s = \<lparr>p_index = idx, p_columns = cols,
          p_values = map (\<lambda>m. map (\<lambda>c. case map_of s (m, c) of
                                           Some v \<Rightarrow> v | None \<Rightarrow> f) cols) idx\<rparr>"
    by (simp add: unstack_def Let_def idx_def cols_def)
  show ?thesis
  proof (cases "index_of m idx")
    case None
    then have "m \<notin> set idx" by (simp add: index_of_None)
    with None sidx show ?thesis by (simp add: loc_def u)
  next
    case (Some i)
    note mi = this
    from index_of_Some[OF mi] have i: "i < length idx" "idx ! i = m" by simp_all
    then have min: "m \<in> set idx" by auto
    show ?thesis
    proof (cases "index_of c cols")
      case None
      then have "c \<notin> set cols" by (simp add: index_of_None)
      with None mi scols show ?thesis by (simp add: loc_def u)
    next
      case (Some j)
      from index_of_Some[OF Some] have j: "j < length cols" "cols ! j = c" by simp_all
      then have "c \<in> set cols" by auto
      with min sidx scols i j mi Some show ?thesis by (simp add: loc_def u)
    qed
  qed
qed

lemma getitem_Inr:
  "getitem p c = Inr vs \<Longrightarrow>
     \<exists>j. index_of c (p_columns p) = Some j \<and> vs = map (\<lambda>row. row ! j) (p_values p)"
  by (auto simp: getitem_def split: option.splits)

lemma loc_getitem:
  assumes "wf_pivot p" "getitem p c = Inr vs" "index_of m (p_index p) = Some i"
  shows "length vs = length (p_index p) \<and> loc p m c = Some (vs ! i)"
proof -
  from getitem_Inr[OF assms(2)] obtain j where
    j: "index_of c (p_columns p) = Some j" and vs: "vs = map (\<lambda>row. row ! j) (p_values p)"
    by blast
  from index_of_Some[OF assms(3)] have i: "i < length (p_index p)" by simp
  with assms(1) have iv: "i < length (p_values p)" by (simp add: wf_pivot_def)
  then have "p_values p ! i \<in> set (p_values p)" by simp
  with assms(1) have "length (p_values p ! i) = length (p_columns p)" by (simp add: wf_pivot_def)
  with index_of_Some[OF j] have "j < length (p_values p ! i)" by simp
  with iv j assms(3) vs assms(1) show ?thesis
    by (simp add: loc_def wf_pivot_def)
qed

lemma loc_setitem_same:
  assumes "wf_pivot p" "length vs = length (p_index p)" "index_of m (p_index p) = Some i"
  shows "loc (setitem p c vs) m c = Some (vs ! i)"
proof -
  from index_of_Some[OF assms(3)] have i: "i < length (p_index p)" by simp
  with assms(1) have iv: "i < length (p_values p)" by (simp add: wf_pivot_def)
  then have "p_values p ! i \<in> set (p_values p)" by simp
  with assms(1) have len: "length (p_values p ! i) = length (p_columns p)"
    by (simp add: wf_pivot_def)
  show ?thesis
  proof (cases "index_of c (p_columns p)")
    case None
    then have "c \<notin> set (p_columns p)" by (simp add: index_of_None)
    then have "index_of c (p_columns p @ [c]) = Some (length (p_columns p))"
      by (rule index_of_append_new)
    with None iv i assms(2,3) len show ?thesis
      by (simp add: loc_def setitem_def nth_append)
  next
    case (Some j)
    with index_of_Some[OF Some] iv i assms(2,3) len show ?thesis
      by (simp add: loc_def setitem_def)
  qed
qed

lemma loc_setitem_other:
  assumes "wf_pivot p" "length vs = length (p_index p)" "c' \<noteq> c"
  shows "loc (setitem p c vs) m c' = loc p m c'"
proof (cases "index_of m (p_index p)")
  case None
  then show ?thesis by (simp add: loc_def setitem_def split: option.splits)
next
  case (Some i)
  note mi = this
  from index_of_Some[OF Some] have i: "i < length (p_index p)" by simp
  with assms(1) have iv: "i < length (p_values p)" by (simp add: wf_pivot_def)
  then have "p_values p ! i \<in> set (p_values p)" by simp
  with assms(1) have len: "length (p_values p ! i) = length (p_columns p)"
    by (simp add: wf_pivot_def)
  show ?thesis
  proof (cases "index_of c' (p_columns p)")
    case None
    note c'None = this
    then have notin: "c' \<notin> set (p_columns p)" by (simp add: index_of_None)
    show ?thesis
    proof (cases "index_of c (p_columns p)")
      case None
      from notin assms(3) have "c' \<notin> set (p_columns p @ [c])" by simp
      then have "index_of c' (p_columns p @ [c]) = None" using index_of_None by fast
      with None c'None mi show ?thesis
        by (simp add: loc_def setitem_def)
    next
      case (Some j)
      with c'None mi show ?thesis by (simp add: loc_def setitem_def)
    qed
  next
    case (Some j')
    note c'Some = this
    from index_of_Some[OF this] have j': "j' < length (p_columns p)" "p_columns p ! j' = c'" by simp_all
    show ?thesis
    proof (cases "index_of c (p_columns p)")
      case None
      from index_of_append_in[OF c'Some] have "index_of c' (p_columns p @ [c]) = Some j'" .
      with None c'Some mi iv i assms(2) len j' show ?thesis
        by (simp add: loc_def setitem_def nth_append)
    next
      case (Some j)
      from index_of_Some[OF Some] j' assms(3) have "j \<noteq> j'" by auto
      with Some c'Some mi iv i assms(2) len j' show ?thesis
        by (simp add: loc_def setitem_def)
    qed
  qed
qed

lemma monthly_by_type_wf: "monthly_by_type df = Inr p \<Longrightarrow> wf_pivot p"
  by (auto simp: monthly_by_type_def wf_unstack split: option.splits)

lemma process_data_cash_flow:
  assumes "process_data i e v c = Inr r"
  shows "\<exists>p inflow outflow. monthly_by_type c = Inr p \<and> getitem p ''Inflow'' = Inr inflow
            \<and> getitem p ''Outflow'' = Inr outflow
            \<and> monthly_cash_flow r = setitem p ''Net'' (map2 (-) inflow outflow)"
  using assms by (auto simp: process_data_def split: sum.splits)

lemma p_index_setitem: "p_index (setitem p c vs) = p_index p"
  by (simp add: setitem_def split: option.splits)

lemma process_data_example:
  "process_data ex_income ex_expense ex_inventory ex_cash = Inr ex_aggregate"
  by code_simp

section \<open>The derived Net column\<close>

text \<open>
  C3. Whenever \<open>process_data\<close> returns, every month \<open>m\<close> of the returned monthly cash-flow
  table has an Inflow, an Outflow and a Net cell, and the Net cell is the Inflow cell minus
  the Outflow cell.
\<close>

theorem net_is_inflow_minus_outflow:
  assumes "process_data income_df expense_df inventory_df cash_flow_df = Inr r"
    and "m \<in> set (p_index (monthly_cash_flow r))"
  shows "\<exists>a b. loc (monthly_cash_flow r) m ''Inflow'' = Some a
           \<and> loc (monthly_cash_flow r) m ''Outflow'' = Some b
           \<and> loc (monthly_cash_flow r) m ''Net'' = Some (a - b)"
proof -
  from process_data_cash_flow[OF assms(1)] obtain p inflow outflow where
    p: "monthly_by_type cash_flow_df = Inr p" and
    gi: "getitem p ''Inflow'' = Inr inflow" and
    go: "getitem p ''Outflow'' = Inr outflow" and
    r: "monthly_cash_flow r = setitem p ''Net'' (map2 (-) inflow outflow)"
    by blast
  from p have wf: "wf_pivot p" by (rule monthly_by_type_wf)
  from assms(2) r have "m \<in> set (p_index p)" by (simp add: p_index_setitem)
  then obtain k where k: "index_of m (p_index p) = Some k" using index_of_mem by fastforce
  from loc_getitem[OF wf gi k] have a: "length inflow = length (p_index p)"
    "loc p m ''Inflow'' = Some (inflow ! k)" by simp_all
  from loc_getitem[OF wf go k] have b: "length outflow = length (p_index p)"
    "loc p m ''Outflow'' = Some (outflow ! k)" by simp_all
  from a b have len: "length (map2 (-) inflow outflow) = length (p_index p)" by simp
  from index_of_Some[OF k] have kl: "k < length (p_index p)" by simp
  have n: "loc (setitem p ''Net'' (map2 (-) inflow outflow)) m ''Net'' = Some (inflow ! k - outflow ! k)"
    using loc_setitem_same[OF wf len k, of "''Net''"] a b kl by simp
  have "loc (setitem p ''Net'' (map2 (-) inflow outflow)) m ''Inflow'' = Some (inflow ! k)"
    using loc_setitem_other[OF wf len, of "''Inflow''" "''Net''" m] a by simp
  moreover have "loc (setitem p ''Net'' (map2 (-) inflow outflow)) m ''Outflow'' = Some (outflow ! k)"
    using loc_setitem_other[OF wf len, of "''Outflow''" "''Net''" m] b by simp
  ultimately show ?thesis using n r by simp
qed

theorem net_is_inflow_minus_outflow_witness:
  "process_data ex_income ex_expense ex_inventory ex_cash = Inr ex_aggregate
   \<and> (2023, 2) \<in> set (p_index (monthly_cash_flow ex_aggregate))
   \<and> (\<exists>a b. loc (monthly_cash_flow ex_aggregate) (2023, 2) ''Inflow'' = Some a
           \<and> loc (monthly_cash_flow ex_aggregate) (2023, 2) ''Outflow'' = Some b
           \<and> loc (monthly_cash_flow ex_aggregate) (2023, 2) ''Net'' = Some (a - b))"
proof -
  have h: "process_data ex_income ex_expense ex_inventory ex_cash = Inr ex_aggregate"
    by (rule process_data_example)
  have m: "(2023, 2) \<in> set (p_index (monthly_cash_flow ex_aggregate))"
    by (simp add: ex_aggregate_def)
  from net_is_inflow_minus_outflow [OF h m] h m show ?thesis by blast
qed

section \<open>Groups and the labels of a pivoted table\<close>

lemma set_map_filter_eq: "set (List.map_filter g xs) = {y. \<exists>x \<in> set xs. g x = Some y}"
  by (induction xs) (auto split: option.splits)

lemma keys_apply_groups:
  "map fst (apply_groups f (groupby dt ky rs)) =
     sort (remdups (List.map_filter (\<lambda>r. key_of (dt r) (ky r)) rs))"
  by (simp add: apply_groups_def groupby_def comp_def)

lemma set_keys_apply_groups:
  "fst ` set (apply_groups f (groupby dt ky rs)) = observed dt ky rs"
proof -
  have "fst ` set (apply_groups f (groupby dt ky rs)) = set (map fst (apply_groups f (groupby dt ky rs)))"
    by simp
  also have "\<dots> = observed dt ky rs"
    unfolding keys_apply_groups by (auto simp: observed_def set_map_filter_eq)
  finally show ?thesis .
qed

lemma distinct_keys_apply_groups:
  "distinct (map fst (apply_groups f (groupby dt ky rs)))"
  unfolding keys_apply_groups by simp

lemma map_of_apply_groups:
  "map_of (apply_groups f (groupby dt ky rs)) k =
     (if k \<in> observed dt ky rs
      then Some (f (filter (\<lambda>r. key_of (dt r) (ky r) = Some k) rs)) else None)"
proof -
  define ks where "ks = sort (remdups (List.map_filter (\<lambda>r. key_of (dt r) (ky r)) rs))"
  have s: "set ks = observed dt ky rs"
    by (auto simp: ks_def observed_def set_map_filter_eq)
  have a: "apply_groups f (groupby dt ky rs) =
      map (\<lambda>k. (k, f (filter (\<lambda>r. key_of (dt r) (ky r) = Some k) rs))) ks"
    by (simp add: apply_groups_def groupby_def ks_def comp_def)
  have "map_of (map (\<lambda>k. (k, g k)) xs) k = (if k \<in> set xs then Some (g k) else None)" for g :: "month_end \<times> string \<Rightarrow> int64" and xs
    by (induction xs) auto
  with a s show ?thesis by simp
qed

lemma columns_unstack_groups:
  "set (p_columns (unstack v (apply_groups f (groupby dt ky rs)))) = snd ` observed dt ky rs"
proof -
  have "set (p_columns (unstack v s)) = snd ` fst ` set s" for s
    by (simp add: unstack_def Let_def image_comp)
  then show ?thesis by (simp only: set_keys_apply_groups)
qed


lemma getitem_Inr_iff: "(\<exists>vs. getitem p c = Inr vs) \<longleftrightarrow> c \<in> set (p_columns p)"
proof (cases "index_of c (p_columns p)")
  case None
  then have "c \<notin> set (p_columns p)" by (simp add: index_of_None)
  with None show ?thesis by (simp add: getitem_def)
next
  case (Some j)
  from index_of_Some[OF Some] have "c \<in> set (p_columns p)" by auto
  with Some show ?thesis by (simp add: getitem_def)
qed

lemma getitem_Inl: "c \<notin> set (p_columns p) \<Longrightarrow> getitem p c = Inl (KeyError c)"
  by (simp add: getitem_def index_of_None[THEN iffD2])

lemma monthly_by_type_Inr:
  "monthly_by_type df = Inr p \<Longrightarrow>
     p = unstack 0 (apply_groups (\<lambda>g. sum_list (map cf_amount g)) (groupby cf_date cf_type (rows df)))"
  by (cases "require [''date'', ''type'', ''amount''] df") (simp_all add: monthly_by_type_def)

lemma monthly_by_type_columns:
  "monthly_by_type df = Inr p \<Longrightarrow> set (p_columns p) = snd ` observed cf_date cf_type (rows df)"
  by (drule monthly_by_type_Inr) (simp only: columns_unstack_groups)

lemma observed_type:
  "c \<in> snd ` observed cf_date cf_type rs \<Longrightarrow> \<exists>x \<in> set rs. cf_type x = Some c"
proof -
  assume "c \<in> snd ` observed cf_date cf_type rs"
  then obtain m x where "x \<in> set rs" "key_of (cf_date x) (cf_type x) = Some (m, c)"
    by (auto simp: observed_def)
  then show ?thesis
    by (cases "cf_date x"; cases "cf_type x") auto
qed

section \<open>The cash-flow table needs both flow types\<close>

lemma ex_inflow_only_eval:
  "process_data ex_income ex_expense ex_inventory ex_cash_inflow_only = Inl (KeyError ''Outflow'')"
  by code_simp

text \<open>
  C9. When the cash-flow table has no row of type Inflow, or no row of type Outflow,
  \<open>process_data\<close> raises an error instead of returning; and when the four grouped
  tables of lines 107 to 123 were built, that error is the \<open>KeyError\<close> of line 124 for
  the column \<open>'Inflow'\<close> or \<open>'Outflow'\<close>: the missing column is not taken as zero.
\<close>

theorem cash_flow_needs_inflow_and_outflow:
  assumes "(\<forall>x \<in> set (rows cash_flow_df). cf_type x \<noteq> Some ''Inflow'')
           \<or> (\<forall>x \<in> set (rows cash_flow_df). cf_type x \<noteq> Some ''Outflow'')"
  shows "(\<exists>e. process_data income_df expense_df inventory_df cash_flow_df = Inl e)
         \<and> (\<forall>a b c p. monthly_by_category income_df = Inr a
               \<and> monthly_by_category expense_df = Inr b
               \<and> monthly_by_product inventory_df = Inr c
               \<and> monthly_by_type cash_flow_df = Inr p
             \<longrightarrow> process_data income_df expense_df inventory_df cash_flow_df = Inl (KeyError ''Inflow'')
               \<or> process_data income_df expense_df inventory_df cash_flow_df = Inl (KeyError ''Outflow''))"
proof -
  have key: "getitem p ''Inflow'' = Inl (KeyError ''Inflow'')
        \<or> (\<exists>vs. getitem p ''Inflow'' = Inr vs) \<and> getitem p ''Outflow'' = Inl (KeyError ''Outflow'')"
    if p: "monthly_by_type cash_flow_df = Inr p" for p
  proof (cases "''Inflow'' \<in> set (p_columns p)")
    case False
    then show ?thesis by (simp add: getitem_Inl)
  next
    case True
    then have ex: "\<exists>x \<in> set (rows cash_flow_df). cf_type x = Some ''Inflow''"
      using monthly_by_type_columns[OF p] observed_type by blast
    with assms have "\<forall>x \<in> set (rows cash_flow_df). cf_type x \<noteq> Some ''Outflow''" by blast
    then have "''Outflow'' \<notin> set (p_columns p)"
      using monthly_by_type_columns[OF p] observed_type by blast
    then have "getitem p ''Outflow'' = Inl (KeyError ''Outflow'')" by (rule getitem_Inl)
    moreover from True have "\<exists>vs. getitem p ''Inflow'' = Inr vs" by (simp add: getitem_Inr_iff)
    ultimately show ?thesis by blast
  qed
  have 1: "\<exists>e. process_data income_df expense_df inventory_df cash_flow_df = Inl e"
    using key by (fastforce simp: process_data_def split: sum.splits)
  have 2: "process_data income_df expense_df inventory_df cash_flow_df = Inl (KeyError ''Inflow'')
               \<or> process_data income_df expense_df inventory_df cash_flow_df = Inl (KeyError ''Outflow'')"
    if "monthly_by_category income_df = Inr a" "monthly_by_category expense_df = Inr b"
       "monthly_by_product inventory_df = Inr c" "monthly_by_type cash_flow_df = Inr p" for a b c p
    using that key[OF that(4)] by (auto simp: process_data_def)
  from 1 2 show ?thesis by blast
qed

theorem cash_flow_needs_inflow_and_outflow_witness:
  "list_all (\<lambda>x. cf_type x \<noteq> Some ''Outflow'') (rows ex_cash_inflow_only)
   \<and> process_data ex_income ex_expense ex_inventory ex_cash_inflow_only = Inl (KeyError ''Outflow'')
   \<and> (\<exists>e. process_data ex_income ex_expense ex_inventory ex_cash_inflow_only = Inl e)"
proof -
  have o: "\<forall>x \<in> set (rows ex_cash_inflow_only). cf_type x \<noteq> Some ''Outflow''"
    by (simp add: ex_cash_inflow_only_def)
  then have h: "(\<forall>x \<in> set (rows ex_cash_inflow_only). cf_type x \<noteq> Some ''Inflow'')
           \<or> (\<forall>x \<in> set (rows ex_cash_inflow_only). cf_type x \<noteq> Some ''Outflow'')" ..
  from cash_flow_needs_inflow_and_outflow [OF h, of ex_income ex_expense ex_inventory]
  have "\<exists>e. process_data ex_income ex_expense ex_inventory ex_cash_inflow_only = Inl e" by blast
  moreover from o have "list_all (\<lambda>x. cf_type x \<noteq> Some ''Outflow'') (rows ex_cash_inflow_only)"
    by (simp add: list_all_iff)
  ultimately show ?thesis using ex_inflow_only_eval by blast
qed

section \<open>An inventory table without rows\<close>

lemma groupby_Nil: "groupby dt ky [] = []"
  by (simp add: groupby_def List.map_filter_simps)

lemma monthly_by_product_empty:
  assumes "rows df = []" "require [''date'', ''product'', ''quantity'', ''cost_price''] df = None"
  shows "monthly_by_product df = Inr \<lparr>p_index = [], p_columns = [], p_values = []\<rparr>"
  using assms by (simp add: monthly_by_product_def groupby_Nil apply_groups_def unstack_def)

text \<open>
  C7. For an inventory table with zero rows (and the four columns that lines 118 to 120
  read), the call returns whenever it returns for the same income, expense and cash-flow
  tables with some other inventory table: the empty table raises nothing of its own. The
  result has \<open>total_inventory_value = 0\<close> and an empty monthly inventory table.
\<close>

theorem empty_inventory_total_zero:
  assumes "rows inventory_df = []"
    and "require [''date'', ''product'', ''quantity'', ''cost_price''] inventory_df = None"
    and "process_data income_df expense_df other_inventory_df cash_flow_df = Inr r0"
  shows "\<exists>r. process_data income_df expense_df inventory_df cash_flow_df = Inr r
           \<and> total_inventory_value r = 0
           \<and> monthly_inventory_value r = \<lparr>p_index = [], p_columns = [], p_values = []\<rparr>"
  using assms(3) monthly_by_product_empty[OF assms(1,2)] assms(1)
  by (auto simp: process_data_def split: sum.splits)


theorem empty_inventory_total_zero_witness:
  "rows ex_empty_inventory = []
   \<and> require [''date'', ''product'', ''quantity'', ''cost_price''] ex_empty_inventory = None
   \<and> process_data ex_income ex_expense ex_inventory ex_cash = Inr ex_aggregate
   \<and> (\<exists>r. process_data ex_income ex_expense ex_empty_inventory ex_cash = Inr r
           \<and> total_inventory_value r = 0
           \<and> monthly_inventory_value r = \<lparr>p_index = [], p_columns = [], p_values = []\<rparr>)"
proof -
  have a: "rows ex_empty_inventory = []" by (simp add: ex_empty_inventory_def)
  have b: "require [''date'', ''product'', ''quantity'', ''cost_price''] ex_empty_inventory = None"
    by (simp add: ex_empty_inventory_def)
  from empty_inventory_total_zero [OF a b process_data_example] a b process_data_example
  show ?thesis by blast
qed

section \<open>Monthly profit and loss\<close>






lemma monthly_by_category_Inr:
  "monthly_by_category df = Inr p \<Longrightarrow>
     p = unstack 0 (apply_groups (\<lambda>g. sum_list (map amount g)) (groupby date category (rows df)))"
  by (cases "require [''date'', ''category'', ''amount''] df") (simp_all add: monthly_by_category_def)


lemma process_data_Inr:
  assumes "process_data i e v c = Inr r"
  shows "monthly_by_category i = Inr (monthly_income r)"
    and "monthly_by_category e = Inr (monthly_expenses r)"
    and "monthly_by_product v = Inr (monthly_inventory_value r)"
    and "total_income r = sum_list (map amount (rows i))"
    and "total_expenses r = sum_list (map amount (rows e))"
    and "total_inventory_value r = sum_list (map (\<lambda>x. quantity x * cost_price x) (rows v))"
    and "monthly_pnl r = series_sub (sum_axis1 (monthly_income r)) (sum_axis1 (monthly_expenses r))"
  using assms by (auto simp: process_data_def split: sum.splits)




section \<open>The cells of the monthly income table and the total\<close>










section \<open>Pivoted tables have no missing cell\<close>

lemma process_data_example2:
  "process_data ex_income ex_expense2 ex_inventory2 ex_cash = Inr ex_aggregate2"
  by code_simp

lemma set_index_unstack: "set (p_index (unstack v s)) = fst ` fst ` set s"
  by (simp add: unstack_def Let_def image_comp)

lemma set_columns_unstack: "set (p_columns (unstack v s)) = snd ` fst ` set s"
  by (simp add: unstack_def Let_def image_comp)

lemma unstack_groups_total:
  assumes "m \<in> set (p_index (unstack 0 (apply_groups f (groupby dt ky rs))))"
    and "c \<in> set (p_columns (unstack 0 (apply_groups f (groupby dt ky rs))))"
  shows "\<exists>v. loc (unstack 0 (apply_groups f (groupby dt ky rs))) m c = Some v
           \<and> ((m, c) \<notin> observed dt ky rs \<longrightarrow> v = 0)"
proof -
  let ?s = "apply_groups f (groupby dt ky rs)"
  from assms have mc: "m \<in> fst ` fst ` set ?s" "c \<in> snd ` fst ` set ?s"
    by (simp_all only: set_index_unstack set_columns_unstack)
  then have l: "loc (unstack 0 ?s) m c = Some (case map_of ?s (m, c) of Some v \<Rightarrow> v | None \<Rightarrow> 0)"
    by (simp add: loc_unstack)
  have "map_of ?s (m, c) = None" if "(m, c) \<notin> observed dt ky rs"
    using that by (simp add: map_of_apply_groups)
  with l show ?thesis by auto
qed

lemma monthly_by_product_Inr:
  "monthly_by_product df = Inr p \<Longrightarrow>
     p = unstack 0 (apply_groups (\<lambda>x. sum_list (map (\<lambda>r. quantity r * cost_price r) x))
           (groupby inv_date product (rows df)))"
  by (cases "require [''date'', ''product'', ''quantity'', ''cost_price''] df")
    (simp_all add: monthly_by_product_def)

lemma p_columns_setitem:
  "set (p_columns (setitem p c vs)) = insert c (set (p_columns p))"
proof (cases "index_of c (p_columns p)")
  case None
  then show ?thesis by (simp add: setitem_def)
next
  case (Some j)
  from index_of_Some[OF Some] have "c \<in> set (p_columns p)" by auto
  with Some show ?thesis by (auto simp: setitem_def)
qed

lemma cash_flow_total:
  assumes "process_data i e v cash_flow_df = Inr r"
    and "m \<in> set (p_index (monthly_cash_flow r))" "c \<in> set (p_columns (monthly_cash_flow r))"
  shows "\<exists>x. loc (monthly_cash_flow r) m c = Some x
           \<and> (c \<noteq> ''Net'' \<and> (m, c) \<notin> observed cf_date cf_type (rows cash_flow_df) \<longrightarrow> x = 0)"
proof -
  from process_data_cash_flow[OF assms(1)] obtain p inflow outflow where
    p: "monthly_by_type cash_flow_df = Inr p" and
    gi: "getitem p ''Inflow'' = Inr inflow" and
    go: "getitem p ''Outflow'' = Inr outflow" and
    r: "monthly_cash_flow r = setitem p ''Net'' (map2 (-) inflow outflow)"
    by blast
  from p have wf: "wf_pivot p" by (rule monthly_by_type_wf)
  note pu = monthly_by_type_Inr[OF p]
  from assms(2) r have min: "m \<in> set (p_index p)" by (simp add: p_index_setitem)
  then obtain k where k: "index_of m (p_index p) = Some k" using index_of_mem by fastforce
  from loc_getitem[OF wf gi k] loc_getitem[OF wf go k]
  have len: "length (map2 (-) inflow outflow) = length (p_index p)" by simp
  show ?thesis
  proof (cases "c = ''Net''")
    case True
    with loc_setitem_same[OF wf len k, of "''Net''"] r show ?thesis by simp
  next
    case False
    with assms(3) r have cin: "c \<in> set (p_columns p)" by (simp add: p_columns_setitem)
    from False r have eq: "loc (monthly_cash_flow r) m c = loc p m c"
      using loc_setitem_other[OF wf len, of c "''Net''" m] by simp
    from min cin have "\<exists>x. loc p m c = Some x
        \<and> ((m, c) \<notin> observed cf_date cf_type (rows cash_flow_df) \<longrightarrow> x = 0)"
      unfolding pu by (rule unstack_groups_total)
    with eq show ?thesis by auto
  qed
qed

text \<open>
  C4. Whenever \<open>process_data\<close> returns, each of the four pivoted tables has a cell for every
  one of its months \<open>m\<close> and every one of its columns \<open>c\<close>, and the cell is 0 when no row
  of the input table has month \<open>m\<close> and key \<open>c\<close>. The columns are exactly the categories
  (products, flow types) observed in some month. In the cash-flow table the column
  \<open>'Net'\<close> is the derived one of line 124: it has a cell in every month too, holding
  Inflow minus Outflow.
\<close>

theorem pivots_are_total:
  assumes "process_data income_df expense_df inventory_df cash_flow_df = Inr r"
  shows "(m \<in> set (p_index (monthly_income r)) \<and> c \<in> set (p_columns (monthly_income r)) \<longrightarrow>
            (\<exists>x. loc (monthly_income r) m c = Some x
               \<and> ((m, c) \<notin> observed date category (rows income_df) \<longrightarrow> x = 0)))
       \<and> (m \<in> set (p_index (monthly_expenses r)) \<and> c \<in> set (p_columns (monthly_expenses r)) \<longrightarrow>
            (\<exists>x. loc (monthly_expenses r) m c = Some x
               \<and> ((m, c) \<notin> observed date category (rows expense_df) \<longrightarrow> x = 0)))
       \<and> (m \<in> set (p_index (monthly_inventory_value r))
            \<and> c \<in> set (p_columns (monthly_inventory_value r)) \<longrightarrow>
            (\<exists>x. loc (monthly_inventory_value r) m c = Some x
               \<and> ((m, c) \<notin> observed inv_date product (rows inventory_df) \<longrightarrow> x = 0)))
       \<and> (m \<in> set (p_index (monthly_cash_flow r)) \<and> c \<in> set (p_columns (monthly_cash_flow r)) \<longrightarrow>
            (\<exists>x. loc (monthly_cash_flow r) m c = Some x
               \<and> (c \<noteq> ''Net'' \<and> (m, c) \<notin> observed cf_date cf_type (rows cash_flow_df) \<longrightarrow> x = 0)))
       \<and> set (p_columns (monthly_income r)) = snd ` observed date category (rows income_df)
       \<and> set (p_columns (monthly_expenses r)) = snd ` observed date category (rows expense_df)
       \<and> set (p_columns (monthly_inventory_value r)) = snd ` observed inv_date product (rows inventory_df)
       \<and> set (p_columns (monthly_cash_flow r)) =
           insert ''Net'' (snd ` observed cf_date cf_type (rows cash_flow_df))"
proof -
  note a = monthly_by_category_Inr[OF process_data_Inr(1)[OF assms]]
  note b = monthly_by_category_Inr[OF process_data_Inr(2)[OF assms]]
  note d = monthly_by_product_Inr[OF process_data_Inr(3)[OF assms]]
  have 1: "m \<in> set (p_index (monthly_income r)) \<and> c \<in> set (p_columns (monthly_income r)) \<longrightarrow>
            (\<exists>x. loc (monthly_income r) m c = Some x
               \<and> ((m, c) \<notin> observed date category (rows income_df) \<longrightarrow> x = 0))"
    unfolding a using unstack_groups_total by blast
  have 2: "m \<in> set (p_index (monthly_expenses r)) \<and> c \<in> set (p_columns (monthly_expenses r)) \<longrightarrow>
            (\<exists>x. loc (monthly_expenses r) m c = Some x
               \<and> ((m, c) \<notin> observed date category (rows expense_df) \<longrightarrow> x = 0))"
    unfolding b using unstack_groups_total by blast
  have 3: "m \<in> set (p_index (monthly_inventory_value r))
            \<and> c \<in> set (p_columns (monthly_inventory_value r)) \<longrightarrow>
            (\<exists>x. loc (monthly_inventory_value r) m c = Some x
               \<and> ((m, c) \<notin> observed inv_date product (rows inventory_df) \<longrightarrow> x = 0))"
    unfolding d using unstack_groups_total by blast
  have 4: "m \<in> set (p_index (monthly_cash_flow r)) \<and> c \<in> set (p_columns (monthly_cash_flow r)) \<longrightarrow>
            (\<exists>x. loc (monthly_cash_flow r) m c = Some x
               \<and> (c \<noteq> ''Net'' \<and> (m, c) \<notin> observed cf_date cf_type (rows cash_flow_df) \<longrightarrow> x = 0))"
    using cash_flow_total[OF assms] by blast
  have 5: "set (p_columns (monthly_income r)) = snd ` observed date category (rows income_df)"
    unfolding a by (rule columns_unstack_groups)
  have 6: "set (p_columns (monthly_expenses r)) = snd ` observed date category (rows expense_df)"
    unfolding b by (rule columns_unstack_groups)
  have 7: "set (p_columns (monthly_inventory_value r)) =
      snd ` observed inv_date product (rows inventory_df)"
    unfolding d by (rule columns_unstack_groups)
  from process_data_cash_flow[OF assms] obtain p inflow outflow where
    p: "monthly_by_type cash_flow_df = Inr p" and
    r: "monthly_cash_flow r = setitem p ''Net'' (map2 (-) inflow outflow)"
    by blast
  have 8: "set (p_columns (monthly_cash_flow r)) =
           insert ''Net'' (snd ` observed cf_date cf_type (rows cash_flow_df))"
    unfolding r p_columns_setitem monthly_by_type_columns[OF p] ..
  from 1 2 3 4 5 6 7 8 show ?thesis by (intro conjI)
qed

theorem pivots_are_total_witness:
  "process_data ex_income ex_expense2 ex_inventory2 ex_cash = Inr ex_aggregate2
   \<and> ((2023, 2), ''Product Sales'') \<notin> observed date category (rows ex_income)
   \<and> loc (monthly_income ex_aggregate2) (2023, 2) ''Product Sales'' = Some 0
   \<and> ((2023, 2), ''Rent'') \<notin> observed date category (rows ex_expense2)
   \<and> loc (monthly_expenses ex_aggregate2) (2023, 2) ''Rent'' = Some 0
   \<and> ((2023, 2), ''Product A'') \<notin> observed inv_date product (rows ex_inventory2)
   \<and> loc (monthly_inventory_value ex_aggregate2) (2023, 2) ''Product A'' = Some 0
   \<and> ((2023, 2), ''Inflow'') \<notin> observed cf_date cf_type (rows ex_cash)
   \<and> loc (monthly_cash_flow ex_aggregate2) (2023, 2) ''Inflow'' = Some 0"
proof -
  note t = pivots_are_total [OF process_data_example2, of "(2023, 2)"]
  have o: "((2023, 2), ''Product Sales'') \<notin> observed date category (rows ex_income)"
    "((2023, 2), ''Rent'') \<notin> observed date category (rows ex_expense2)"
    "((2023, 2), ''Product A'') \<notin> observed inv_date product (rows ex_inventory2)"
    "((2023, 2), ''Inflow'') \<notin> observed cf_date cf_type (rows ex_cash)"
    by (simp_all add: observed_def ex_income_def ex_expense2_def ex_inventory2_def ex_cash_def
        jan15_def feb03_def month_of_def)
  have i: "(2023, 2) \<in> set (p_index (monthly_income ex_aggregate2))"
    "(2023, 2) \<in> set (p_index (monthly_expenses ex_aggregate2))"
    "(2023, 2) \<in> set (p_index (monthly_inventory_value ex_aggregate2))"
    "(2023, 2) \<in> set (p_index (monthly_cash_flow ex_aggregate2))"
    "''Product Sales'' \<in> set (p_columns (monthly_income ex_aggregate2))"
    "''Rent'' \<in> set (p_columns (monthly_expenses ex_aggregate2))"
    "''Product A'' \<in> set (p_columns (monthly_inventory_value ex_aggregate2))"
    "''Inflow'' \<in> set (p_columns (monthly_cash_flow ex_aggregate2))"
    by (simp_all add: ex_aggregate2_def ex_aggregate_def)
  from t [of "''Product Sales''"] o i
  have 1: "loc (monthly_income ex_aggregate2) (2023, 2) ''Product Sales'' = Some 0" by auto
  from t [of "''Rent''"] o i
  have 2: "loc (monthly_expenses ex_aggregate2) (2023, 2) ''Rent'' = Some 0" by auto
  from t [of "''Product A''"] o i
  have 3: "loc (monthly_inventory_value ex_aggregate2) (2023, 2) ''Product A'' = Some 0" by auto
  from t [of "''Inflow''"] o i
  have 4: "loc (monthly_cash_flow ex_aggregate2) (2023, 2) ''Inflow'' = Some 0" by auto
  from process_data_example2 o 1 2 3 4 show ?thesis by (intro conjI)
qed

section \<open>The call leaves its arguments as they were\<close>

lemma process_data_on_extends:
  "\<exists>ys. snd (process_data_on i e v c h) = h @ ys"
  by (auto simp: process_data_on_def alloc_def list_update_append split: sum.splits)

lemma lookup_append: "a < length h \<Longrightarrow> lookup (h @ ys) a = lookup h a"
  by (simp add: lookup_def nth_append)

lemma process_data_on_outcome:
  "outcome (process_data_on i e v c h) = map_sum id Some (process_data i e v c)"
  by (auto simp: outcome_def process_data_on_def process_data_def alloc_def deref_def lookup_def
      nth_append list_update_append split: sum.splits)

lemma process_data_heap_Some:
  assumes "process_data_heap a b c d h = Some x"
  shows "\<exists>i e v cf. lookup h a = Some (TxnFrame i) \<and> lookup h b = Some (TxnFrame e)
           \<and> lookup h c = Some (InvFrame v) \<and> lookup h d = Some (CashFrame cf)
           \<and> x = process_data_on i e v cf h"
  using assms
  by (simp add: process_data_heap_def split: option.splits object.splits)

lemma process_data_heap_frames:
  assumes "lookup h a = Some (TxnFrame i)" "lookup h b = Some (TxnFrame e)"
    "lookup h c = Some (InvFrame v)" "lookup h d = Some (CashFrame cf)"
  shows "process_data_heap a b c d h = Some (process_data_on i e v cf h)"
  using assms by (simp add: process_data_heap_def)

lemma heap_kept:
  assumes "process_data_heap a b c d h = Some (res, h')"
  shows "a < length h \<and> b < length h \<and> c < length h \<and> d < length h
       \<and> (\<forall>x. x < length h \<longrightarrow> lookup h' x = lookup h x)"
proof -
  from process_data_heap_Some[OF assms] obtain i e v cf where
    l: "lookup h a = Some (TxnFrame i)" "lookup h b = Some (TxnFrame e)"
       "lookup h c = Some (InvFrame v)" "lookup h d = Some (CashFrame cf)"
    and x: "(res, h') = process_data_on i e v cf h"
    by blast
  from process_data_on_extends[of i e v cf h] x obtain ys where h': "h' = h @ ys"
    by (metis snd_conv)
  have old: "lookup h' x = lookup h x" if "x < length h" for x
    using that by (simp add: h' lookup_append)
  have "a < length h" "b < length h" "c < length h" "d < length h"
    using l by (simp_all add: lookup_def split: if_splits)
  with old show ?thesis by simp
qed

lemma ex_heap_eval:
  "process_data_heap 0 1 2 3 ex_heap =
     Some (Inr \<lparr>ref_monthly_income = 8, val_total_income = 1250, ref_monthly_expenses = 9,
                val_total_expenses = 400, ref_monthly_pnl = 10, ref_monthly_inventory_value = 11,
                val_total_inventory_value = 60, ref_monthly_cash_flow = 12\<rparr>,
           ex_heap @ [PivotFrame (monthly_income ex_aggregate),
                      PivotFrame (monthly_expenses ex_aggregate),
                      SeriesObj (monthly_pnl ex_aggregate),
                      PivotFrame (monthly_inventory_value ex_aggregate),
                      PivotFrame (monthly_cash_flow ex_aggregate)])"
  by code_simp

text \<open>
  C10. After a call of \<open>process_data\<close> on four frames of the store, whether it returns or
  raises, the income, expense, inventory and cash-flow frame are what they were before the
  call, and so is every other object that existed before it: the call only adds objects,
  and line 124 writes into one of those it added.
\<close>

theorem arguments_not_mutated:
  assumes "process_data_heap income_df expense_df inventory_df cash_flow_df h = Some (res, h')"
  shows "lookup h' income_df = lookup h income_df
       \<and> lookup h' expense_df = lookup h expense_df
       \<and> lookup h' inventory_df = lookup h inventory_df
       \<and> lookup h' cash_flow_df = lookup h cash_flow_df
       \<and> (\<forall>a. a < length h \<longrightarrow> lookup h' a = lookup h a)"
  using heap_kept[OF assms] by simp

theorem arguments_not_mutated_witness:
  "(\<exists>res h'. process_data_heap 0 1 2 3 ex_heap = Some (res, h')
      \<and> lookup h' 0 = Some (TxnFrame ex_income)
      \<and> lookup h' 1 = Some (TxnFrame ex_expense)
      \<and> lookup h' 2 = Some (InvFrame ex_inventory)
      \<and> lookup h' 3 = Some (CashFrame ex_cash)
      \<and> lookup h' 12 = Some (PivotFrame (monthly_cash_flow ex_aggregate)))"
proof -
  let ?h' = "ex_heap @ [PivotFrame (monthly_income ex_aggregate),
                      PivotFrame (monthly_expenses ex_aggregate),
                      SeriesObj (monthly_pnl ex_aggregate),
                      PivotFrame (monthly_inventory_value ex_aggregate),
                      PivotFrame (monthly_cash_flow ex_aggregate)]"
  have l: "lookup ex_heap 0 = Some (TxnFrame ex_income)"
    "lookup ex_heap 1 = Some (TxnFrame ex_expense)"
    "lookup ex_heap 2 = Some (InvFrame ex_inventory)"
    "lookup ex_heap 3 = Some (CashFrame ex_cash)"
    by (simp_all add: lookup_def ex_heap_def)
  from arguments_not_mutated [OF ex_heap_eval] l
  have a: "lookup ?h' 0 = Some (TxnFrame ex_income)"
    "lookup ?h' 1 = Some (TxnFrame ex_expense)"
    "lookup ?h' 2 = Some (InvFrame ex_inventory)"
    "lookup ?h' 3 = Some (CashFrame ex_cash)"
    by simp_all
  have b: "lookup ?h' 12 = Some (PivotFrame (monthly_cash_flow ex_aggregate))"
    by (simp add: lookup_def ex_heap_def)
  from ex_heap_eval a b show ?thesis by blast
qed

section \<open>Equal tables give equal results\<close>

lemma outcome_by_frames:
  assumes "lookup h a = Some (TxnFrame i)" "lookup h b = Some (TxnFrame e)"
    "lookup h c = Some (InvFrame v)" "lookup h d = Some (CashFrame cf)"
  shows "map_option outcome (process_data_heap a b c d h) =
           Some (map_sum id Some (process_data i e v cf))"
  by (simp add: process_data_heap_frames[OF assms] process_data_on_outcome)

lemma same_frames_same_outcome:
  assumes "lookup h a = lookup g a'" "lookup h b = lookup g b'"
    "lookup h c = lookup g c'" "lookup h d = lookup g d'"
  shows "map_option outcome (process_data_heap a b c d h)
       = map_option outcome (process_data_heap a' b' c' d' g)"
proof (cases "process_data_heap a b c d h")
  case None
  then have "process_data_heap a' b' c' d' g = None"
    using assms
    by (simp add: process_data_heap_def split: option.splits object.splits)
  with None show ?thesis by simp
next
  case (Some x)
  from process_data_heap_Some[OF Some] obtain i e v cf where
    l: "lookup h a = Some (TxnFrame i)" "lookup h b = Some (TxnFrame e)"
       "lookup h c = Some (InvFrame v)" "lookup h d = Some (CashFrame cf)"
    by blast
  from l assms have l': "lookup g a' = Some (TxnFrame i)" "lookup g b' = Some (TxnFrame e)"
       "lookup g c' = Some (InvFrame v)" "lookup g d' = Some (CashFrame cf)"
    by simp_all
  show ?thesis by (simp only: outcome_by_frames[OF l] outcome_by_frames[OF l'])
qed

lemma ex_heap_copy_eval:
  "map_option outcome (process_data_heap 4 5 6 7 ex_heap) = Some (Inr (Some ex_aggregate))"
  by code_simp

text \<open>
  C8. Two calls of \<open>process_data\<close> on equal tables, be they the same four objects or
  copies at other addresses or in another store, give the same outcome: the same error, or
  dicts whose tables and scalars are equal. In particular a second call on the same four
  addresses, in the store the first call left, gives the outcome of the first.
\<close>

theorem equal_inputs_equal_outputs:
  assumes "lookup h income_df = lookup g income_df'"
    and "lookup h expense_df = lookup g expense_df'"
    and "lookup h inventory_df = lookup g inventory_df'"
    and "lookup h cash_flow_df = lookup g cash_flow_df'"
  shows "map_option outcome (process_data_heap income_df expense_df inventory_df cash_flow_df h)
       = map_option outcome (process_data_heap income_df' expense_df' inventory_df' cash_flow_df' g)
     \<and> (\<forall>res h'. process_data_heap income_df expense_df inventory_df cash_flow_df h = Some (res, h')
           \<longrightarrow> map_option outcome (process_data_heap income_df expense_df inventory_df cash_flow_df h')
               = Some (outcome (res, h')))"
proof -
  have 1: "map_option outcome (process_data_heap income_df expense_df inventory_df cash_flow_df h)
       = map_option outcome (process_data_heap income_df' expense_df' inventory_df' cash_flow_df' g)"
    using assms by (rule same_frames_same_outcome)
  have 2: "map_option outcome (process_data_heap income_df expense_df inventory_df cash_flow_df h')
               = Some (outcome (res, h'))"
    if r: "process_data_heap income_df expense_df inventory_df cash_flow_df h = Some (res, h')"
    for res h'
  proof -
    from heap_kept[OF r] have eq: "lookup h' income_df = lookup h income_df"
      "lookup h' expense_df = lookup h expense_df"
      "lookup h' inventory_df = lookup h inventory_df"
      "lookup h' cash_flow_df = lookup h cash_flow_df" by simp_all
    from same_frames_same_outcome[OF eq] r show ?thesis by simp
  qed
  from 1 2 show ?thesis by blast
qed

theorem equal_inputs_equal_outputs_witness:
  "lookup ex_heap 0 = lookup ex_heap 4 \<and> lookup ex_heap 1 = lookup ex_heap 5
   \<and> lookup ex_heap 2 = lookup ex_heap 6 \<and> lookup ex_heap 3 = lookup ex_heap 7
   \<and> map_option outcome (process_data_heap 0 1 2 3 ex_heap) = Some (Inr (Some ex_aggregate))
   \<and> map_option outcome (process_data_heap 4 5 6 7 ex_heap) = Some (Inr (Some ex_aggregate))"
proof -
  have l: "lookup ex_heap 0 = lookup ex_heap 4" "lookup ex_heap 1 = lookup ex_heap 5"
    "lookup ex_heap 2 = lookup ex_heap 6" "lookup ex_heap 3 = lookup ex_heap 7"
    by (simp_all add: lookup_def ex_heap_def)
  from equal_inputs_equal_outputs [OF l] ex_heap_copy_eval
  have "map_option outcome (process_data_heap 0 1 2 3 ex_heap) = Some (Inr (Some ex_aggregate))"
    by simp
  with l ex_heap_copy_eval show ?thesis by blast
qed

section \<open>What the upload branch checks before it aggregates\<close>

lemma those_map_None:
  "those (map f xs) = None \<longleftrightarrow> (\<exists>x \<in> set xs. f x = None)"
  by (induction xs) (auto split: option.splits)

lemma to_datetime_None: "to_datetime c = None \<longleftrightarrow> c = BadText"
  by (cases c) simp_all

lemma bad_in_map: "BadText \<in> set (map f xs) \<longleftrightarrow> (\<exists>x \<in> set xs. f x = BadText)"
  by (induction xs) auto

lemma txn_dates_None:
  "txn_dates df = None \<longleftrightarrow> unparseable (columns df) (map date (rows df))"
  unfolding unparseable_def bad_in_map
  by (simp add: txn_dates_def those_map_None to_datetime_None)

lemma inventory_dates_None:
  "inventory_dates df = None \<longleftrightarrow> unparseable (columns df) (map inv_date (rows df))"
  unfolding unparseable_def bad_in_map
  by (simp add: inventory_dates_def those_map_None to_datetime_None)

lemma cash_flow_dates_None:
  "cash_flow_dates df = None \<longleftrightarrow> unparseable (columns df) (map cf_date (rows df))"
  unfolding unparseable_def bad_in_map
  by (simp add: cash_flow_dates_def those_map_None to_datetime_None)

lemma those_map_length: "those (map f xs) = Some ys \<Longrightarrow> length ys = length xs"
  by (induction xs arbitrary: ys) (auto split: option.splits)

lemma txn_dates_Some:
  "txn_dates df = Some df' \<Longrightarrow> columns df' = columns df \<and> length (rows df') = length (rows df)"
  by (auto simp: txn_dates_def split: if_splits dest: those_map_length)

lemma inventory_dates_Some:
  "inventory_dates df = Some df' \<Longrightarrow>
     columns df' = columns df \<and> length (rows df') = length (rows df)"
  by (auto simp: inventory_dates_def split: if_splits dest: those_map_length)

lemma cash_flow_dates_Some:
  "cash_flow_dates df = Some df' \<Longrightarrow>
     columns df' = columns df \<and> length (rows df') = length (rows df)"
  by (auto simp: cash_flow_dates_def split: if_splits dest: those_map_length)

lemma main_upload_unreadable:
  assumes "income_file \<noteq> NotUploaded" "expense_file \<noteq> NotUploaded"
    "inventory_file \<noteq> NotUploaded" "cash_flow_file \<noteq> NotUploaded"
    and "income_file = Unreadable \<or> expense_file = Unreadable
         \<or> inventory_file = Unreadable \<or> cash_flow_file = Unreadable"
  shows "main_upload income_file expense_file inventory_file cash_flow_file = ErrorReadingFiles"
  using assms
  by (cases income_file; cases expense_file; cases inventory_file; cases cash_flow_file)
    (simp_all add: main_upload_def)

lemma main_upload_parsed:
  "main_upload (Parsed i) (Parsed e) (Parsed v) (Parsed c) =
     (case (txn_dates i, txn_dates e, inventory_dates v, cash_flow_dates c) of
        (Some income_df, Some expense_df, Some inventory_df, Some cash_flow_df) \<Rightarrow>
          Processed (process_data income_df expense_df inventory_df cash_flow_df)
      | _ \<Rightarrow> ErrorReadingFiles)"
  by (simp add: main_upload_def)

lemma main_upload_bad_date:
  assumes "unparseable (columns i) (map date (rows i))
         \<or> unparseable (columns e) (map date (rows e))
         \<or> unparseable (columns v) (map inv_date (rows v))
         \<or> unparseable (columns c) (map cf_date (rows c))"
  shows "main_upload (Parsed i) (Parsed e) (Parsed v) (Parsed c) = ErrorReadingFiles"
  using assms
  unfolding main_upload_parsed txn_dates_None[symmetric] inventory_dates_None[symmetric]
    cash_flow_dates_None[symmetric]
  by (auto split: option.splits)

lemma main_upload_processed:
  assumes "\<not> unparseable (columns i) (map date (rows i))"
    "\<not> unparseable (columns e) (map date (rows e))"
    "\<not> unparseable (columns v) (map inv_date (rows v))"
    "\<not> unparseable (columns c) (map cf_date (rows c))"
  shows "\<exists>income_df expense_df inventory_df cash_flow_df.
           txn_dates i = Some income_df \<and> txn_dates e = Some expense_df
         \<and> inventory_dates v = Some inventory_df \<and> cash_flow_dates c = Some cash_flow_df
         \<and> main_upload (Parsed i) (Parsed e) (Parsed v) (Parsed c) =
             Processed (process_data income_df expense_df inventory_df cash_flow_df)"
proof -
  from assms obtain a b d f where
    s: "txn_dates i = Some a" "txn_dates e = Some b"
       "inventory_dates v = Some d" "cash_flow_dates c = Some f"
    unfolding txn_dates_None[symmetric] inventory_dates_None[symmetric]
      cash_flow_dates_None[symmetric]
    by auto
  then show ?thesis by (simp add: main_upload_parsed)
qed

lemma up_empty_inventory_eval:
  "main_upload (Parsed up_income) (Parsed up_expense) (Parsed up_inventory_empty) (Parsed up_cash)
     = Processed (Inr ex_aggregate_no_stock)"
  by code_simp

lemma up_no_amount_eval:
  "main_upload (Parsed up_income_no_amount) (Parsed up_expense) (Parsed up_inventory_empty)
     (Parsed up_cash) = Processed (Inl (KeyError ''amount''))"
  by code_simp

lemma up_bad_date_eval:
  "main_upload (Parsed up_income_bad_date) (Parsed up_expense) (Parsed up_inventory_empty)
     (Parsed up_cash) = ErrorReadingFiles"
  by code_simp

text \<open>
  C5, as amended. With all four files uploaded, what is found before \<open>process_data\<close> runs
  is an unreadable file and, in a table that has a date column, a date that
  \<open>pd.to_datetime\<close> cannot parse: either ends the run with the message of line 373 and
  \<open>process_data\<close> is not called. Nothing else is checked: with four readable files and
  parseable dates \<open>process_data\<close> is called on the tables as they are, whatever their row
  counts and columns.
\<close>

theorem errors_found_before_aggregation:
  "(income_file \<noteq> NotUploaded \<and> expense_file \<noteq> NotUploaded
      \<and> inventory_file \<noteq> NotUploaded \<and> cash_flow_file \<noteq> NotUploaded
      \<and> (income_file = Unreadable \<or> expense_file = Unreadable
           \<or> inventory_file = Unreadable \<or> cash_flow_file = Unreadable)
     \<longrightarrow> main_upload income_file expense_file inventory_file cash_flow_file = ErrorReadingFiles)
   \<and> (unparseable (columns i) (map date (rows i))
        \<or> unparseable (columns e) (map date (rows e))
        \<or> unparseable (columns v) (map inv_date (rows v))
        \<or> unparseable (columns c) (map cf_date (rows c))
     \<longrightarrow> main_upload (Parsed i) (Parsed e) (Parsed v) (Parsed c) = ErrorReadingFiles)
   \<and> (\<not> unparseable (columns i) (map date (rows i))
        \<and> \<not> unparseable (columns e) (map date (rows e))
        \<and> \<not> unparseable (columns v) (map inv_date (rows v))
        \<and> \<not> unparseable (columns c) (map cf_date (rows c))
     \<longrightarrow> (\<exists>income_df expense_df inventory_df cash_flow_df.
            txn_dates i = Some income_df \<and> txn_dates e = Some expense_df
          \<and> inventory_dates v = Some inventory_df \<and> cash_flow_dates c = Some cash_flow_df
          \<and> columns income_df = columns i \<and> length (rows income_df) = length (rows i)
          \<and> columns expense_df = columns e \<and> length (rows expense_df) = length (rows e)
          \<and> columns inventory_df = columns v \<and> length (rows inventory_df) = length (rows v)
          \<and> columns cash_flow_df = columns c \<and> length (rows cash_flow_df) = length (rows c)
          \<and> main_upload (Parsed i) (Parsed e) (Parsed v) (Parsed c) =
              Processed (process_data income_df expense_df inventory_df cash_flow_df)))"
proof (intro conjI impI)
  assume "income_file \<noteq> NotUploaded \<and> expense_file \<noteq> NotUploaded
      \<and> inventory_file \<noteq> NotUploaded \<and> cash_flow_file \<noteq> NotUploaded
      \<and> (income_file = Unreadable \<or> expense_file = Unreadable
           \<or> inventory_file = Unreadable \<or> cash_flow_file = Unreadable)"
  then show "main_upload income_file expense_file inventory_file cash_flow_file = ErrorReadingFiles"
    using main_upload_unreadable by blast
next
  assume "unparseable (columns i) (map date (rows i))
        \<or> unparseable (columns e) (map date (rows e))
        \<or> unparseable (columns v) (map inv_date (rows v))
        \<or> unparseable (columns c) (map cf_date (rows c))"
  then show "main_upload (Parsed i) (Parsed e) (Parsed v) (Parsed c) = ErrorReadingFiles"
    by (rule main_upload_bad_date)
next
  assume a: "\<not> unparseable (columns i) (map date (rows i))
        \<and> \<not> unparseable (columns e) (map date (rows e))
        \<and> \<not> unparseable (columns v) (map inv_date (rows v))
        \<and> \<not> unparseable (columns c) (map cf_date (rows c))"
  then obtain a b d f where
    s: "txn_dates i = Some a" "txn_dates e = Some b"
       "inventory_dates v = Some d" "cash_flow_dates c = Some f"
    and m: "main_upload (Parsed i) (Parsed e) (Parsed v) (Parsed c) = Processed (process_data a b d f)"
    using main_upload_processed[of i e v c] by blast
  from s txn_dates_Some[OF s(1)] txn_dates_Some[OF s(2)] inventory_dates_Some[OF s(3)]
    cash_flow_dates_Some[OF s(4)] m
  show "\<exists>income_df expense_df inventory_df cash_flow_df.
            txn_dates i = Some income_df \<and> txn_dates e = Some expense_df
          \<and> inventory_dates v = Some inventory_df \<and> cash_flow_dates c = Some cash_flow_df
          \<and> columns income_df = columns i \<and> length (rows income_df) = length (rows i)
          \<and> columns expense_df = columns e \<and> length (rows expense_df) = length (rows e)
          \<and> columns inventory_df = columns v \<and> length (rows inventory_df) = length (rows v)
          \<and> columns cash_flow_df = columns c \<and> length (rows cash_flow_df) = length (rows c)
          \<and> main_upload (Parsed i) (Parsed e) (Parsed v) (Parsed c) =
              Processed (process_data income_df expense_df inventory_df cash_flow_df)"
    by blast
qed

theorem errors_found_before_aggregation_witness:
  "unparseable (columns up_income_bad_date) (map date (rows up_income_bad_date))
   \<and> main_upload (Parsed up_income_bad_date) (Parsed up_expense) (Parsed up_inventory_empty)
       (Parsed up_cash) = ErrorReadingFiles
   \<and> main_upload (Parsed up_income) Unreadable (Parsed up_inventory_empty) (Parsed up_cash)
       = ErrorReadingFiles
   \<and> \<not> unparseable (columns up_income) (map date (rows up_income))
   \<and> \<not> unparseable (columns up_expense) (map date (rows up_expense))
   \<and> \<not> unparseable (columns up_inventory_empty) (map inv_date (rows up_inventory_empty))
   \<and> \<not> unparseable (columns up_cash) (map cf_date (rows up_cash))
   \<and> (\<exists>income_df expense_df inventory_df cash_flow_df.
         main_upload (Parsed up_income) (Parsed up_expense) (Parsed up_inventory_empty)
           (Parsed up_cash)
           = Processed (process_data income_df expense_df inventory_df cash_flow_df)
         \<and> rows inventory_df = [])"
proof -
  have bad: "unparseable (columns up_income_bad_date) (map date (rows up_income_bad_date))"
    by (simp add: unparseable_def up_income_bad_date_def)
  have good: "\<not> unparseable (columns up_income) (map date (rows up_income))"
    "\<not> unparseable (columns up_expense) (map date (rows up_expense))"
    "\<not> unparseable (columns up_inventory_empty) (map inv_date (rows up_inventory_empty))"
    "\<not> unparseable (columns up_cash) (map cf_date (rows up_cash))"
    by (simp_all add: unparseable_def up_income_def up_expense_def up_inventory_empty_def
        up_cash_def)
  note t = errors_found_before_aggregation
  from t [of "Parsed up_income" Unreadable "Parsed up_inventory_empty" "Parsed up_cash"]
  have 1: "main_upload (Parsed up_income) Unreadable (Parsed up_inventory_empty) (Parsed up_cash)
       = ErrorReadingFiles" by simp
  from t [of _ _ _ _ up_income_bad_date up_expense up_inventory_empty up_cash] bad
  have 2: "main_upload (Parsed up_income_bad_date) (Parsed up_expense) (Parsed up_inventory_empty)
       (Parsed up_cash) = ErrorReadingFiles" by blast
  from t [of _ _ _ _ up_income up_expense up_inventory_empty up_cash] good
  obtain a b d f where
    "main_upload (Parsed up_income) (Parsed up_expense) (Parsed up_inventory_empty) (Parsed up_cash)
       = Processed (process_data a b d f)"
    "length (rows d) = length (rows up_inventory_empty)"
    by blast
  then have 3: "\<exists>income_df expense_df inventory_df cash_flow_df.
         main_upload (Parsed up_income) (Parsed up_expense) (Parsed up_inventory_empty)
           (Parsed up_cash)
           = Processed (process_data income_df expense_df inventory_df cash_flow_df)
         \<and> rows inventory_df = []"
    by (auto simp: up_inventory_empty_def)
  from bad good 1 2 3 show ?thesis by (intro conjI)
qed

text \<open>
  The claim as stated fails: an inventory table with zero rows raises no error at all, and
  an income table without its \<open>amount\<close> column reaches \<open>process_data\<close>, where line 107
  raises \<open>KeyError\<close>.
\<close>

theorem errors_found_before_aggregation_counterexample:
  "rows up_inventory_empty = []
   \<and> main_upload (Parsed up_income) (Parsed up_expense) (Parsed up_inventory_empty) (Parsed up_cash)
       = Processed (Inr ex_aggregate_no_stock)
   \<and> ''amount'' \<notin> set (columns up_income_no_amount)
   \<and> main_upload (Parsed up_income_no_amount) (Parsed up_expense) (Parsed up_inventory_empty)
       (Parsed up_cash) = Processed (Inl (KeyError ''amount''))"
  using up_empty_inventory_eval up_no_amount_eval
  by (simp add: up_inventory_empty_def up_income_no_amount_def)

end
